theory Spec2Isabelle
  imports Main
begin

section \<open>The host: files, I/O calls and the log\<close>

text \<open>
  The mitigate command of runsc reads a description of the processors, decides whether
  simultaneous multithreading has to be switched off, writes the decision to a control
  file and reads the description again.  Everything it does to the host goes through
  three library calls (\<open>ioutil.ReadFile\<close>, \<open>os.OpenFile\<close>, \<open>File.Write\<close>) and the logger.
  The host is an explicit state: the regular files, the list of I/O calls made so far,
  the lines logged so far, and a fault schedule, which says for the n-th I/O call
  whether the operating system refuses it and with which cause.
\<close>

type_synonym path = string

datatype ExitStatus = ExitSuccess | ExitFailure | ExitUsageError

datatype open_flag = O_WRONLY | O_CREATE | O_TRUNC

datatype io_call =
    ReadFileCall path
  | OpenFileCall path "open_flag list" nat
  | WriteCall path string

datatype log_line = Info string | Warning string | Fatal string | UsageShown

record regfile =
  contents :: string
  perm :: nat

record world =
  files :: "path \<rightharpoonup> regfile"
  faults :: "nat \<Rightarrow> string option"
  calls :: "io_call list"
  logged :: "log_line list"

text \<open>An open file of Go: the name it was opened under and the offset of the next write.\<close>

record os_file =
  fname :: path
  offset :: nat

definition called :: "io_call \<Rightarrow> world \<Rightarrow> world" where
  "called c w = w\<lparr>calls := calls w @ [c]\<rparr>"

definition fault_now :: "world \<Rightarrow> string option" where
  "fault_now w = faults w (length (calls w))"

text \<open>\<open>ioutil.ReadFile\<close>: the whole contents of the file, or the cause of the failure.\<close>

definition ReadFile :: "path \<Rightarrow> world \<Rightarrow> (string + string) \<times> world" where
  "ReadFile name w =
     (case fault_now w of
        Some cause \<Rightarrow> (Inl cause, called (ReadFileCall name) w)
      | None \<Rightarrow>
          (case files w name of
             None \<Rightarrow> (Inl ''no such file or directory'', called (ReadFileCall name) w)
           | Some f \<Rightarrow> (Inr (contents f), called (ReadFileCall name) w)))"

text \<open>
  \<open>os.OpenFile\<close>: a missing file is created, empty and with the permission bits asked
  for, only under \<open>O_CREATE\<close>; an existing file is emptied only under \<open>O_TRUNC\<close>.
  The new handle writes from offset 0.
\<close>

definition OpenFile :: "path \<Rightarrow> open_flag list \<Rightarrow> nat \<Rightarrow> world \<Rightarrow> (string + os_file) \<times> world" where
  "OpenFile name flags pm w =
     (case fault_now w of
        Some cause \<Rightarrow> (Inl cause, called (OpenFileCall name flags pm) w)
      | None \<Rightarrow>
          (case files w name of
             None \<Rightarrow>
               if O_CREATE \<in> set flags
               then (Inr \<lparr>fname = name, offset = 0\<rparr>,
                     called (OpenFileCall name flags pm)
                       (w\<lparr>files := (files w)(name \<mapsto> \<lparr>contents = [], perm = pm\<rparr>)\<rparr>))
               else (Inl ''no such file or directory'', called (OpenFileCall name flags pm) w)
           | Some f \<Rightarrow>
               if O_TRUNC \<in> set flags
               then (Inr \<lparr>fname = name, offset = 0\<rparr>,
                     called (OpenFileCall name flags pm)
                       (w\<lparr>files := (files w)(name \<mapsto> f\<lparr>contents := []\<rparr>)\<rparr>))
               else (Inr \<lparr>fname = name, offset = 0\<rparr>, called (OpenFileCall name flags pm) w)))"

text \<open>
  Writing \<open>bs\<close> at offset \<open>off\<close> of the old contents \<open>old\<close>: the bytes under the written
  range are replaced, the bytes after it stay, a gap before it is filled with zero bytes.
\<close>

definition overwrite :: "nat \<Rightarrow> string \<Rightarrow> string \<Rightarrow> string" where
  "overwrite off bs old =
     take off old @ replicate (off - length old) (CHR 0x00) @ bs @ drop (off + length bs) old"

text \<open>
  \<open>File.Write\<close>: the number of bytes written, or the cause of the failure.  A refused
  write leaves the file as it was.
\<close>

definition FileWrite :: "os_file \<Rightarrow> string \<Rightarrow> world \<Rightarrow> (string + nat) \<times> world" where
  "FileWrite f bs w =
     (case fault_now w of
        Some cause \<Rightarrow> (Inl cause, called (WriteCall (fname f) bs) w)
      | None \<Rightarrow>
          (case files w (fname f) of
             None \<Rightarrow> (Inl ''bad file descriptor'', called (WriteCall (fname f) bs) w)
           | Some old \<Rightarrow>
               (Inr (length bs),
                called (WriteCall (fname f) bs)
                  (w\<lparr>files := (files w)(fname f \<mapsto>
                         old\<lparr>contents := overwrite (offset f) bs (contents old)\<rparr>)\<rparr>))))"

text \<open>The logger: \<open>log.Infof\<close> and \<open>log.Warningf\<close> add a line.\<close>

definition Infof :: "string \<Rightarrow> world \<Rightarrow> world" where
  "Infof msg w = w\<lparr>logged := logged w @ [Info msg]\<rparr>"

definition Warningf :: "string \<Rightarrow> world \<Rightarrow> world" where
  "Warningf msg w = w\<lparr>logged := logged w @ [Warning msg]\<rparr>"

text \<open>
  Modelled from the spec: \<open>Errorf\<close> of package cmd, whose file is not among the
  sources.  The command reports an operation failure with a descriptive message and the
  failure exit status; the tests compare the status that \<open>Errorf\<close> returns for one message
  with the status that \<open>doExecute\<close> returns for another, so the status does not depend on
  the message.
\<close>

definition Errorf :: "string \<Rightarrow> world \<Rightarrow> ExitStatus \<times> world" where
  "Errorf msg w = (ExitFailure, w\<lparr>logged := logged w @ [Fatal msg]\<rparr>)"

section \<open>The command\<close>

definition cpuInfo :: path where
  "cpuInfo = ''/proc/cpuinfo''"

definition smtPath :: path where
  "smtPath = ''/sys/devices/system/cpu/smt/control''"

record Mitigate =
  dryRun :: bool
  reverse :: bool
  data :: string

text \<open>
  Package mitigate (the set of processors, its parser and its classification) and the
  method \<open>postMitigate\<close> are not among the sources.  The command takes them as
  parameters: the constructor of a set from the text of the description, the test for
  vulnerability, the summary that is logged, and the check after the action, which
  yields an error message or nothing.
\<close>

record 'cs mitigate_pkg =
  newCPUSet :: "string \<Rightarrow> string + 'cs"
  isVulnerable :: "'cs \<Rightarrow> bool"
  toString :: "'cs \<Rightarrow> string"
  postMitigate :: "Mitigate \<Rightarrow> 'cs \<Rightarrow> string option"

definition perm_0644 :: nat where
  "perm_0644 = 6 * 64 + 4 * 8 + 4"

definition doEnableDisable :: "path \<Rightarrow> string \<Rightarrow> world \<Rightarrow> (string + unit) \<times> world" where
  "doEnableDisable filePath action w =
     (case OpenFile filePath [O_WRONLY, O_CREATE] perm_0644 w of
        (Inl err, w1) \<Rightarrow> (Inl (''failed to open file '' @ smtPath @ '': '' @ err), w1)
      | (Inr f, w1) \<Rightarrow>
          (case FileWrite f action w1 of
             (Inl err, w2) \<Rightarrow>
               (Inl (''failed to write '' @ [CHR 0x22] @ action @ [CHR 0x22] @ '' to ''
                       @ smtPath @ '': '' @ err), w2)
           | (Inr n, w2) \<Rightarrow> (Inr (), w2)))"

definition doMitigate ::
  "('cs \<Rightarrow> bool) \<Rightarrow> path \<Rightarrow> 'cs \<Rightarrow> world \<Rightarrow> (string + unit) \<times> world" where
  "doMitigate IsVulnerable filePath cpuSet w =
     (if \<not> IsVulnerable cpuSet then (Inr (), w)
      else
        (case doEnableDisable filePath ''off'' w of
           (Inl err, w1) \<Rightarrow> (Inl (''disable: '' @ err), w1)
         | (Inr u, w1) \<Rightarrow> (Inr (), w1)))"

definition doReverse :: "path \<Rightarrow> 'cs \<Rightarrow> world \<Rightarrow> (string + unit) \<times> world" where
  "doReverse filePath cpuSet w =
     (case doEnableDisable filePath ''on'' w of
        (Inl err, w1) \<Rightarrow> (Inl (''enable: '' @ err), w1)
      | (Inr u, w1) \<Rightarrow> (Inr (), w1))"

definition getCPUSet :: "'cs mitigate_pkg \<Rightarrow> path \<Rightarrow> world \<Rightarrow> (string + 'cs) \<times> world" where
  "getCPUSet pkg p w =
     (case ReadFile p w of
        (Inl err, w1) \<Rightarrow> (Inl (''failed to read '' @ p @ '': '' @ err), w1)
      | (Inr text, w1) \<Rightarrow> (newCPUSet pkg text, w1))"

text \<open>
  The action of \<open>doExecute\<close>: \<open>doMitigate\<close>, replaced by \<open>doReverse\<close> under the reverse
  flag, replaced by the function that does nothing under the dry-run flag, in that order.
\<close>

definition dryRunAction :: "path \<Rightarrow> 'cs \<Rightarrow> world \<Rightarrow> (string + unit) \<times> world" where
  "dryRunAction filePath cpuSet w = (Inr (), w)"

definition chosenAction ::
  "'cs mitigate_pkg \<Rightarrow> Mitigate \<Rightarrow> path \<Rightarrow> 'cs \<Rightarrow> world \<Rightarrow> (string + unit) \<times> world" where
  "chosenAction pkg m =
     (let action = doMitigate (isVulnerable pkg);
          action = (if reverse m then doReverse else action);
          action = (if dryRun m then dryRunAction else action)
      in action)"

definition doExecute ::
  "'cs mitigate_pkg \<Rightarrow> Mitigate \<Rightarrow> path \<Rightarrow> path \<Rightarrow> world \<Rightarrow> ExitStatus \<times> world" where
  "doExecute pkg m cpuInfoPath smtFilePath w =
     (case getCPUSet pkg cpuInfoPath w of
        (Inl err, w1) \<Rightarrow> Errorf (''Get before CPUSet failed: '' @ err) w1
      | (Inr beforeSet, w1) \<Rightarrow>
          (case chosenAction pkg m smtFilePath beforeSet
                  (Infof (''CPUs before: '' @ toString pkg beforeSet) w1) of
             (Inl err, w2) \<Rightarrow> Errorf (''Action failed: '' @ err) w2
           | (Inr u, w2) \<Rightarrow>
               (case getCPUSet pkg cpuInfoPath w2 of
                  (Inl err, w3) \<Rightarrow> Errorf (''Get after CPUSet failed: '' @ err) w3
                | (Inr afterSet, w3) \<Rightarrow>
                    (case postMitigate pkg m afterSet of
                       Some err \<Rightarrow>
                         Errorf (''Post Mitigate failed: '' @ err)
                           (Infof (''CPUs after: '' @ toString pkg afterSet) w3)
                     | None \<Rightarrow>
                         (ExitSuccess, Infof (''CPUs after: '' @ toString pkg afterSet) w3)))))"

text \<open>
  \<open>Execute\<close>: the architecture the binary runs on and the number of positional arguments
  are its inputs.
\<close>

definition Execute ::
  "'cs mitigate_pkg \<Rightarrow> Mitigate \<Rightarrow> string \<Rightarrow> nat \<Rightarrow> world \<Rightarrow> ExitStatus \<times> world" where
  "Execute pkg m GOARCH NArg w =
     (if GOARCH = ''arm64'' \<or> GOARCH = ''arm''
      then (ExitFailure, Warningf ''As ARM is not affected by MDS, mitigate does not support'' w)
      else if NArg \<noteq> 0
      then (ExitUsageError, w\<lparr>logged := logged w @ [UsageShown]\<rparr>)
      else doExecute pkg m cpuInfo smtPath w)"

section \<open>Package mitigate, from the specification\<close>

text \<open>
  Modelled from the spec: the record of one logical processor, the set of processors and
  the parser of package mitigate (\<open>NewCPUSet\<close>), none of which is among the sources.
  The text is a sequence of blocks delimited by blank lines, one block per logical
  processor; a line is \<open>key : value\<close>; the required keys are met in a fixed order and
  any other line is ignored; a required key that is not met is an error naming the key
  and the block; input without any processor fails with the "no cpus found" condition
  naming the input.  The names of the keys are those of the description that the test
  fixtures write.
\<close>

record CPU =
  processorNumber :: nat
  vendorID :: string
  cpuFamily :: nat
  model :: nat
  modelName :: string
  physicalID :: nat
  coreID :: nat
  bugs :: "string list"

type_synonym CPUSet = "CPU list"

datatype parse_error = NoCPUsFound string | KeyMatchFailed string string

fun split_on :: "char \<Rightarrow> string \<Rightarrow> string list" where
  "split_on c [] = [[]]"
| "split_on c (x # xs) =
     (if x = c then [] # split_on c xs
      else (case split_on c xs of [] \<Rightarrow> [[x]] | l # ls \<Rightarrow> (x # l) # ls))"

definition is_space :: "char \<Rightarrow> bool" where
  "is_space c = (c = CHR '' '' \<or> c = CHR 0x09 \<or> c = CHR 0x0D)"

definition trim :: "string \<Rightarrow> string" where
  "trim s = rev (dropWhile is_space (rev (dropWhile is_space s)))"

definition is_digit :: "char \<Rightarrow> bool" where
  "is_digit c = (48 \<le> (of_char c :: nat) \<and> (of_char c :: nat) \<le> 57)"

definition nat_of_digits :: "string \<Rightarrow> nat" where
  "nat_of_digits s = foldl (\<lambda>n c. 10 * n + (of_char c - 48)) 0 s"

definition key_value :: "string \<Rightarrow> (string \<times> string) option" where
  "key_value l =
     (if CHR '':'' \<in> set l
      then Some (trim (takeWhile (\<lambda>c. c \<noteq> CHR '':'') l),
                 trim (drop 1 (dropWhile (\<lambda>c. c \<noteq> CHR '':'') l)))
      else None)"

text \<open>A key is a name and whether its value has to be a number.\<close>

definition matches_key :: "string \<times> bool \<Rightarrow> string \<Rightarrow> string option" where
  "matches_key k l =
     (case key_value l of
        None \<Rightarrow> None
      | Some (name, v) \<Rightarrow>
          if name \<noteq> fst k then None
          else if snd k then (if v \<noteq> [] \<and> list_all is_digit v then Some v else None)
          else Some v)"

fun find_key :: "string \<times> bool \<Rightarrow> string list \<Rightarrow> (string \<times> string list) option" where
  "find_key k [] = None"
| "find_key k (l # ls) =
     (case matches_key k l of Some v \<Rightarrow> Some (v, ls) | None \<Rightarrow> find_key k ls)"

definition processorKey :: "string \<times> bool" where
  "processorKey = (''processor'', True)"

definition requiredKeys :: "(string \<times> bool) list" where
  "requiredKeys =
     [processorKey, (''vendor_id'', False), (''cpu family'', True), (''model'', True),
      (''model name'', False), (''physical id'', True), (''core id'', True), (''bugs'', False)]"

fun match_keys :: "(string \<times> bool) list \<Rightarrow> string list \<Rightarrow> string + string list" where
  "match_keys [] ls = Inr []"
| "match_keys (k # ks) ls =
     (case find_key k ls of
        None \<Rightarrow> Inl (fst k)
      | Some (v, rest) \<Rightarrow>
          (case match_keys ks rest of Inl e \<Rightarrow> Inl e | Inr vs \<Rightarrow> Inr (v # vs)))"

definition unlines :: "string list \<Rightarrow> string" where
  "unlines ls = concat (map (\<lambda>l. l @ [CHR 0x0A]) ls)"

definition newCPU :: "string list \<Rightarrow> parse_error + CPU" where
  "newCPU block =
     (case match_keys requiredKeys block of
        Inl k \<Rightarrow> Inl (KeyMatchFailed k (unlines block))
      | Inr vs \<Rightarrow>
          (case vs of
             [p, vid, fam, mdl, mname, phys, core, bs] \<Rightarrow>
               Inr \<lparr>processorNumber = nat_of_digits p, vendorID = vid,
                    cpuFamily = nat_of_digits fam, model = nat_of_digits mdl,
                    modelName = mname, physicalID = nat_of_digits phys,
                    coreID = nat_of_digits core,
                    bugs = filter (\<lambda>t. t \<noteq> []) (split_on CHR '' '' bs)\<rparr>
           | _ \<Rightarrow> Inl (KeyMatchFailed [] (unlines block))))"

fun blocks_of :: "string list \<Rightarrow> string list \<Rightarrow> string list list" where
  "blocks_of cur [] = (if cur = [] then [] else [cur])"
| "blocks_of cur (l # ls) =
     (if trim l = []
      then (if cur = [] then blocks_of [] ls else cur # blocks_of [] ls)
      else blocks_of (cur @ [l]) ls)"

fun newCPUs :: "string list list \<Rightarrow> parse_error + CPUSet" where
  "newCPUs [] = Inr []"
| "newCPUs (b # bs) =
     (case newCPU b of
        Inl e \<Rightarrow> Inl e
      | Inr c \<Rightarrow> (case newCPUs bs of Inl e \<Rightarrow> Inl e | Inr cs \<Rightarrow> Inr (c # cs)))"

definition has_processor :: "string \<Rightarrow> bool" where
  "has_processor text =
     list_ex (\<lambda>l. matches_key processorKey l \<noteq> None) (split_on (CHR 0x0A) text)"

definition NewCPUSet :: "string \<Rightarrow> parse_error + CPUSet" where
  "NewCPUSet text =
     (if has_processor text then newCPUs (blocks_of [] (split_on (CHR 0x0A) text))
      else Inl (NoCPUsFound text))"

text \<open>
  Modelled from the spec: the classification and the summary of a set, not among the
  sources.  The threads of a core are the processors that share its package and core
  ids; a set is vulnerable when some processor reports a tag of the table of
  cross-thread classes and some core has more than one thread.  The table is a
  parameter.  The summary lists the ordinals in ascending order, a run of consecutive
  ordinals as \<open>a-b\<close>.
\<close>

definition threads_of :: "CPUSet \<Rightarrow> CPU \<Rightarrow> nat" where
  "threads_of cs c =
     length (filter (\<lambda>d. physicalID d = physicalID c \<and> coreID d = coreID c) cs)"

definition CPUSet_ThreadsPerCore :: "CPUSet \<Rightarrow> nat" where
  "CPUSet_ThreadsPerCore cs = foldr max (map (threads_of cs) cs) 0"

definition CPUSet_IsVulnerable :: "string list \<Rightarrow> CPUSet \<Rightarrow> bool" where
  "CPUSet_IsVulnerable tags cs =
     (list_ex (\<lambda>c. list_ex (\<lambda>t. t \<in> set tags) (bugs c)) cs \<and> 1 < CPUSet_ThreadsPerCore cs)"

fun dec :: "nat \<Rightarrow> string" where
  "dec n = (if n < 10 then [char_of (48 + n)] else dec (n div 10) @ [char_of (48 + n mod 10)])"

fun ranges :: "nat list \<Rightarrow> (nat \<times> nat) list" where
  "ranges [] = []"
| "ranges (n # ns) =
     (case ranges ns of
        [] \<Rightarrow> [(n, n)]
      | (a, b) # rs \<Rightarrow> if a = Suc n then (n, b) # rs else (n, n) # (a, b) # rs)"

fun join_with :: "string \<Rightarrow> string list \<Rightarrow> string" where
  "join_with sep [] = []"
| "join_with sep [x] = x"
| "join_with sep (x # y # ys) = x @ sep @ join_with sep (y # ys)"

definition CPUSet_String :: "CPUSet \<Rightarrow> string" where
  "CPUSet_String cs =
     join_with '',''
       (map (\<lambda>(a, b). if a = b then dec a else dec a @ ''-'' @ dec b)
            (ranges (sort (map processorNumber cs))))"

text \<open>
  The text of a parse error.  The input is quoted as Go's \<open>%q\<close> does it for printable
  ASCII text: in double quotes, with the double quote, the backslash, the newline and
  the tabulator escaped.
\<close>

definition quoted :: "string \<Rightarrow> string" where
  "quoted s =
     [CHR 0x22] @
     concat (map (\<lambda>c. if c = CHR 0x22 then [CHR 0x5C, CHR 0x22]
                       else if c = CHR 0x5C then [CHR 0x5C, CHR 0x5C]
                       else if c = CHR 0x0A then [CHR 0x5C, CHR ''n'']
                       else if c = CHR 0x09 then [CHR 0x5C, CHR ''t'']
                       else [c]) s) @
     [CHR 0x22]"

fun error_text :: "parse_error \<Rightarrow> string" where
  "error_text (NoCPUsFound text) = ''no cpus found for: '' @ quoted text"
| "error_text (KeyMatchFailed k block) =
     ''failed to match key '' @ quoted k @ '': '' @ quoted block"

text \<open>
  The package as the command sees it, for a table of tags; no check after the action is
  defined.
\<close>

definition host_pkg :: "string list \<Rightarrow> CPUSet mitigate_pkg" where
  "host_pkg tags =
     \<lparr>newCPUSet = (\<lambda>text. case NewCPUSet text of Inl e \<Rightarrow> Inl (error_text e) | Inr cs \<Rightarrow> Inr cs),
      isVulnerable = CPUSet_IsVulnerable tags,
      toString = CPUSet_String,
      postMitigate = (\<lambda>m cs. None)\<rparr>"

section \<open>The fixtures of the tests\<close>

text \<open>
  Package mock writes descriptions of processors for the tests.  Its numbers are Go
  integers; the fixtures only hold natural numbers.
\<close>

record mock_CPU =
  Name :: string
  VendorID :: string
  Family :: nat
  Model :: nat
  ModelName :: string
  Bugs :: string
  PhysicalCores :: nat
  Cores :: nat
  ThreadsPerCore :: nat
  IsVulnerable :: bool

definition CascadeLake2 :: mock_CPU where
  "CascadeLake2 =
     \<lparr>Name = ''CascadeLake'', VendorID = ''GenuineIntel'', Family = 6, Model = 85,
      ModelName = ''Intel(R) Xeon(R) CPU'',
      Bugs = ''spectre_v1 spectre_v2 spec_store_bypass mds swapgs taa'',
      PhysicalCores = 1, Cores = 1, ThreadsPerCore = 2, IsVulnerable = True\<rparr>"

definition AMD2 :: mock_CPU where
  "AMD2 =
     \<lparr>Name = ''AMD'', VendorID = ''AuthenticAMD'', Family = 23, Model = 49,
      ModelName = ''AMD EPYC 7B12'',
      Bugs = ''sysret_ss_attrs spectre_v1 spectre_v2 spec_store_bypass'',
      PhysicalCores = 1, Cores = 1, ThreadsPerCore = 2, IsVulnerable = False\<rparr>"

definition cpu_entry :: "mock_CPU \<Rightarrow> nat \<Rightarrow> nat \<Rightarrow> nat \<Rightarrow> nat \<Rightarrow> string" where
  "cpu_entry tc processorNum i j k =
     ''processor'' @ [CHR 0x09] @ '': '' @ dec processorNum @ [CHR 0x0A] @
     ''vendor_id'' @ [CHR 0x09] @ '': '' @ VendorID tc @ [CHR 0x0A] @
     ''cpu family'' @ [CHR 0x09] @ '': '' @ dec (Family tc) @ [CHR 0x0A] @
     ''model'' @ [CHR 0x09, CHR 0x09] @ '': '' @ dec (Model tc) @ [CHR 0x0A] @
     ''model name'' @ [CHR 0x09] @ '': '' @ ModelName tc @ [CHR 0x0A] @
     ''physical id  : '' @ dec i @ [CHR 0x0A] @
     ''core id'' @ [CHR 0x09, CHR 0x09] @ '': '' @ dec j @ [CHR 0x0A] @
     ''cpu cores'' @ [CHR 0x09] @ '': '' @ dec k @ [CHR 0x0A] @
     ''bugs'' @ [CHR 0x09, CHR 0x09] @ '': '' @ Bugs tc @ [CHR 0x0A] @
     [CHR 0x0A]"

definition doMakeCPUString :: "mock_CPU \<Rightarrow> nat \<Rightarrow> nat \<Rightarrow> nat \<Rightarrow> string" where
  "doMakeCPUString tc physicalCores cores threadsPerCore =
     concat (map (\<lambda>i.
       concat (map (\<lambda>j.
         concat (map (\<lambda>k. cpu_entry tc ((i * cores + j) * threadsPerCore + k) i j k)
                     [0..<threadsPerCore]))
         [0..<cores]))
       [0..<physicalCores])"

definition MakeCPUString :: "mock_CPU \<Rightarrow> string" where
  "MakeCPUString tc = doMakeCPUString tc (PhysicalCores tc) (Cores tc) (ThreadsPerCore tc)"


text \<open>
  A host as \<open>doExecuteTest\<close> sets it up: the description under one path, the control
  file under another, holding \<open>smt\<close>; no call is refused.
\<close>

definition test_host :: "path \<Rightarrow> string \<Rightarrow> path \<Rightarrow> string \<Rightarrow> world" where
  "test_host cpuInfoPath text smtFilePath smt =
     \<lparr>files = [cpuInfoPath \<mapsto> \<lparr>contents = text, perm = 384\<rparr>,
               smtFilePath \<mapsto> \<lparr>contents = smt, perm = 384\<rparr>],
      faults = (\<lambda>n. None), calls = [], logged = []\<rparr>"

definition mds_tags :: "string list" where
  "mds_tags = [''mds'', ''l1tf'']"

text \<open>A host that refuses its n-th I/O call, counted from 0, and no other.\<close>

definition refusing :: "nat \<Rightarrow> string \<Rightarrow> world \<Rightarrow> world" where
  "refusing n cause w = w\<lparr>faults := (\<lambda>k. if k = n then Some cause else None)\<rparr>"

definition parsed :: "string \<Rightarrow> CPUSet" where
  "parsed text = (case NewCPUSet text of Inl e \<Rightarrow> [] | Inr cs \<Rightarrow> cs)"

text \<open>A host without any file, on which no call is refused.\<close>

definition bare_host :: world where
  "bare_host = \<lparr>files = Map.empty, faults = (\<lambda>n. None), calls = [], logged = []\<rparr>"

text \<open>Which calls read a file, and the calls made between two states of the host.\<close>

fun is_read :: "io_call \<Rightarrow> bool" where
  "is_read (ReadFileCall p) = True"
| "is_read (OpenFileCall p flags pm) = False"
| "is_read (WriteCall p bs) = False"

definition new_calls :: "world \<Rightarrow> world \<Rightarrow> io_call list" where
  "new_calls w w' = drop (length (calls w)) (calls w')"

text \<open>The flags of an invocation: none, dry-run alone, dry-run and reverse.\<close>

definition plain_run :: Mitigate where
  "plain_run = \<lparr>dryRun = False, reverse = False, data = []\<rparr>"


definition both_flags :: Mitigate where
  "both_flags = \<lparr>dryRun = True, reverse = True, data = []\<rparr>"

section \<open>The engine as the specification words it\<close>






section \<open>Reading the host before and after\<close>

text \<open>
  The host after a successful open of the control file by \<open>doEnableDisable\<close>, and what the
  file held and which permission bits it had, or gets, before the write.
\<close>

definition opened :: "path \<Rightarrow> world \<Rightarrow> world" where
  "opened p w =
     called (OpenFileCall p [O_WRONLY, O_CREATE] perm_0644)
       (case files w p of
          None \<Rightarrow> w\<lparr>files := (files w)(p \<mapsto> \<lparr>contents = [], perm = perm_0644\<rparr>)\<rparr>
        | Some f \<Rightarrow> w)"

definition old_contents :: "world \<Rightarrow> path \<Rightarrow> string" where
  "old_contents w p = (case files w p of None \<Rightarrow> [] | Some f \<Rightarrow> contents f)"

definition old_perm :: "world \<Rightarrow> path \<Rightarrow> nat" where
  "old_perm w p = (case files w p of None \<Rightarrow> perm_0644 | Some f \<Rightarrow> perm f)"

section \<open>The write to the control file\<close>

lemma doEnableDisable_refused_open:
  "fault_now w = Some cause \<Longrightarrow>
   doEnableDisable p a w =
     (Inl (''failed to open file '' @ smtPath @ '': '' @ cause),
      called (OpenFileCall p [O_WRONLY, O_CREATE] perm_0644) w)"
  by (simp add: doEnableDisable_def OpenFile_def)

lemma OpenFile_create:
  "fault_now w = None \<Longrightarrow>
   OpenFile p [O_WRONLY, O_CREATE] perm_0644 w = (Inr \<lparr>fname = p, offset = 0\<rparr>, opened p w)"
  by (simp add: OpenFile_def opened_def split: option.splits)

lemma opened_fields:
  "calls (opened p w) = calls w @ [OpenFileCall p [O_WRONLY, O_CREATE] perm_0644]"
  "faults (opened p w) = faults w"
  "logged (opened p w) = logged w"
  "files (opened p w) p =
     Some (case files w p of None \<Rightarrow> \<lparr>contents = [], perm = perm_0644\<rparr> | Some f \<Rightarrow> f)"
  "q \<noteq> p \<Longrightarrow> files (opened p w) q = files w q"
  by (simp_all add: opened_def called_def split: option.splits)

lemma fault_now_opened: "fault_now (opened p w) = faults w (Suc (length (calls w)))"
  by (simp add: fault_now_def opened_fields)

lemma doEnableDisable_refused_write:
  "fault_now w = None \<Longrightarrow> faults w (Suc (length (calls w))) = Some cause \<Longrightarrow>
   doEnableDisable p a w =
     (Inl (''failed to write '' @ [CHR 0x22] @ a @ [CHR 0x22] @ '' to '' @ smtPath @ '': '' @ cause),
      called (WriteCall p a) (opened p w))"
  by (simp add: doEnableDisable_def OpenFile_create FileWrite_def fault_now_opened)

lemma regfile_contents_update: "f\<lparr>contents := c\<rparr> = \<lparr>contents = c, perm = perm f\<rparr>"
  by (cases f) simp

lemma doEnableDisable_ok:
  "fault_now w = None \<Longrightarrow> faults w (Suc (length (calls w))) = None \<Longrightarrow>
   doEnableDisable p a w =
     (Inr (),
      w\<lparr>files := (files w)(p \<mapsto> \<lparr>contents = a @ drop (length a) (old_contents w p),
                                     perm = old_perm w p\<rparr>),
        calls := calls w @ [OpenFileCall p [O_WRONLY, O_CREATE] perm_0644, WriteCall p a]\<rparr>)"
  unfolding fault_now_def
  by (auto simp add: doEnableDisable_def OpenFile_def FileWrite_def fault_now_def
        called_def overwrite_def old_contents_def old_perm_def regfile_contents_update
        split: option.splits)

lemma doEnableDisable_calls:
  "calls (snd (doEnableDisable p a w)) =
     calls w @ OpenFileCall p [O_WRONLY, O_CREATE] perm_0644 #
       (if fault_now w = None then [WriteCall p a] else [])"
proof (cases "fault_now w")
  case (Some cause)
  then show ?thesis by (simp add: doEnableDisable_refused_open called_def)
next
  case None
  show ?thesis
  proof (cases "faults w (Suc (length (calls w)))")
    case (Some cause)
    with None show ?thesis
      by (simp add: doEnableDisable_refused_write called_def opened_fields)
  next
    case None2: None
    with None show ?thesis by (simp add: doEnableDisable_ok)
  qed
qed

lemma doEnableDisable_keeps:
  "faults (snd (doEnableDisable p a w)) = faults w"
  "logged (snd (doEnableDisable p a w)) = logged w"
  "q \<noteq> p \<Longrightarrow> files (snd (doEnableDisable p a w)) q = files w q"
  by (auto simp add: doEnableDisable_def OpenFile_def FileWrite_def called_def
        split: option.splits prod.splits sum.splits if_splits)

lemma doMitigate_calls:
  "calls (snd (doMitigate IsVuln p cs w)) =
     (if IsVuln cs then calls (snd (doEnableDisable p ''off'' w)) else calls w)"
  by (simp add: doMitigate_def split: prod.splits sum.splits)

lemma doReverse_calls:
  "calls (snd (doReverse p cs w)) = calls (snd (doEnableDisable p ''on'' w))"
  by (simp add: doReverse_def split: prod.splits sum.splits)

lemma doEnableDisable_succeeds_iff:
  "fst (doEnableDisable p a w) = Inr () \<longleftrightarrow>
     fault_now w = None \<and> faults w (Suc (length (calls w))) = None"
proof (cases "fault_now w")
  case (Some cause)
  then show ?thesis by (simp add: doEnableDisable_refused_open)
next
  case None
  then show ?thesis
    by (cases "faults w (Suc (length (calls w)))")
       (simp_all add: doEnableDisable_refused_write doEnableDisable_ok)
qed

section \<open>The steps of the engine\<close>

lemma getCPUSet_world:
  "snd (getCPUSet pkg p w) = called (ReadFileCall p) w"
  by (simp add: getCPUSet_def ReadFile_def split: option.splits)

lemma getCPUSet_eq_world:
  "getCPUSet pkg p w = (r, w1) \<Longrightarrow> w1 = called (ReadFileCall p) w"
  using getCPUSet_world [of pkg p w] by simp

lemma called_fields:
  "calls (called c w) = calls w @ [c]"
  "files (called c w) = files w"
  "faults (called c w) = faults w"
  "logged (called c w) = logged w"
  by (simp_all add: called_def)

lemma Infof_fields:
  "calls (Infof msg w) = calls w"
  "files (Infof msg w) = files w"
  "faults (Infof msg w) = faults w"
  "logged (Infof msg w) = logged w @ [Info msg]"
  by (simp_all add: Infof_def)

lemma Errorf_fields:
  "fst (Errorf msg w) = ExitFailure"
  "calls (snd (Errorf msg w)) = calls w"
  "files (snd (Errorf msg w)) = files w"
  "faults (snd (Errorf msg w)) = faults w"
  "logged (snd (Errorf msg w)) = logged w @ [Fatal msg]"
  by (simp_all add: Errorf_def)

lemma chosenAction_cases:
  "chosenAction pkg m =
     (if dryRun m then dryRunAction
      else if reverse m then doReverse
      else doMitigate (isVulnerable pkg))"
  by (simp add: chosenAction_def)

lemma chosenAction_no_read:
  "filter is_read (new_calls w (snd (chosenAction pkg m p cs w))) = []"
  by (simp add: chosenAction_cases dryRunAction_def new_calls_def doReverse_calls
        doMitigate_calls doEnableDisable_calls)

lemma chosenAction_extends:
  "\<exists>cs'. calls (snd (chosenAction pkg m p cs w)) = calls w @ cs'"
  by (simp add: chosenAction_cases dryRunAction_def doReverse_calls
        doMitigate_calls doEnableDisable_calls)

lemma host_parses_CascadeLake2:
  "newCPUSet (host_pkg tags) (MakeCPUString CascadeLake2) =
     Inr (parsed (MakeCPUString CascadeLake2))"
proof -
  have "NewCPUSet (MakeCPUString CascadeLake2) = Inr (parsed (MakeCPUString CascadeLake2))"
    by code_simp
  then show ?thesis by (simp add: host_pkg_def)
qed

lemma host_pkg_fields:
  "isVulnerable (host_pkg tags) = CPUSet_IsVulnerable tags"
  "toString (host_pkg tags) = CPUSet_String"
  "postMitigate (host_pkg tags) m cs = None"
  by (simp_all add: host_pkg_def)

lemma getCPUSet_test_host:
  "cp \<noteq> sp \<Longrightarrow> getCPUSet pkg cp (test_host cp text sp smt) =
     (newCPUSet pkg text, called (ReadFileCall cp) (test_host cp text sp smt))"
  by (simp add: getCPUSet_def ReadFile_def fault_now_def test_host_def)

lemma doExecute_after_before:
  assumes "getCPUSet pkg cp w = (Inr bs, w1)"
  shows "doExecute pkg m cp sp w =
     (case chosenAction pkg m sp bs (Infof (''CPUs before: '' @ toString pkg bs) w1) of
        (Inl err, w2) \<Rightarrow> Errorf (''Action failed: '' @ err) w2
      | (Inr u, w2) \<Rightarrow>
          (case getCPUSet pkg cp w2 of
             (Inl err, w3) \<Rightarrow> Errorf (''Get after CPUSet failed: '' @ err) w3
           | (Inr afterSet, w3) \<Rightarrow>
               (case postMitigate pkg m afterSet of
                  Some err \<Rightarrow>
                    Errorf (''Post Mitigate failed: '' @ err)
                      (Infof (''CPUs after: '' @ toString pkg afterSet) w3)
                | None \<Rightarrow> (ExitSuccess, Infof (''CPUs after: '' @ toString pkg afterSet) w3))))"
  using assms by (simp add: doExecute_def)

lemma new_calls_append: "calls w' = calls w @ cs \<Longrightarrow> new_calls w w' = cs"
  by (simp add: new_calls_def)

lemma getCPUSet_ok:
  "fault_now w = None \<Longrightarrow> files w cp = Some f \<Longrightarrow>
   getCPUSet pkg cp w = (newCPUSet pkg (contents f), called (ReadFileCall cp) w)"
  by (simp add: getCPUSet_def ReadFile_def)



lemma cpuInfo_neq_smtPath: "cpuInfo \<noteq> smtPath"
  by (simp add: cpuInfo_def smtPath_def)


lemma fst_eq_pair: "fst x = a \<Longrightarrow> x = (a, snd x)"
  by (cases x) simp

lemma vulnerable_CascadeLake2:
  "CPUSet_IsVulnerable mds_tags (parsed (MakeCPUString CascadeLake2))"
  by code_simp

section \<open>The parser never yields an empty set\<close>

lemma colon_not_space: "\<not> is_space (CHR '':'')"
  by (simp add: is_space_def)

lemma all_space_no_colon: "\<forall>c \<in> set l. is_space c \<Longrightarrow> CHR '':'' \<notin> set l"
  using colon_not_space by blast

lemma dropWhile_all:
  assumes "\<forall>c \<in> set (dropWhile P l). P c"
  shows "dropWhile P l = []"
proof (cases "dropWhile P l")
  case Nil
  then show ?thesis .
next
  case (Cons a as)
  then have "\<not> P a" using hd_dropWhile [of P l] by simp
  with assms Cons show ?thesis by simp
qed

lemma trim_blank_no_colon:
  assumes "trim l = []"
  shows "CHR '':'' \<notin> set l"
proof -
  from assms have "dropWhile is_space (rev (dropWhile is_space l)) = []"
    by (simp add: trim_def)
  then have "\<forall>c \<in> set (dropWhile is_space l). is_space c"
    by (simp add: dropWhile_eq_Nil_conv)
  then have "dropWhile is_space l = []"
    by (rule dropWhile_all)
  then have "\<forall>c \<in> set l. is_space c"
    by (simp add: dropWhile_eq_Nil_conv)
  then show ?thesis by (rule all_space_no_colon)
qed


lemma matches_key_not_blank:
  assumes "matches_key k l \<noteq> None"
  shows "trim l \<noteq> []"
proof
  assume "trim l = []"
  then have "CHR '':'' \<notin> set l" by (rule trim_blank_no_colon)
  then have "key_value l = None" by (simp add: key_value_def)
  then have "matches_key k l = None" by (simp add: matches_key_def)
  with assms show False by simp
qed

lemma blocks_of_empty:
  "blocks_of cur ls = [] \<longleftrightarrow> cur = [] \<and> (\<forall>l \<in> set ls. trim l = [])"
  by (induction ls arbitrary: cur) auto

lemma newCPUs_length: "newCPUs bs = Inr cs \<Longrightarrow> length cs = length bs"
  by (induction bs arbitrary: cs) (auto split: sum.splits)

lemma has_processor_blocks:
  "has_processor text \<Longrightarrow> blocks_of [] (split_on (CHR 0x0A) text) \<noteq> []"
proof -
  assume "has_processor text"
  then obtain l where l: "l \<in> set (split_on (CHR 0x0A) text)"
      and m: "matches_key processorKey l \<noteq> None"
    by (auto simp add: has_processor_def list_ex_iff)
  from m have "trim l \<noteq> []" by (rule matches_key_not_blank)
  with l show ?thesis by (auto simp add: blocks_of_empty)
qed

lemma NewCPUSet_not_empty: "NewCPUSet text \<noteq> Inr []"
proof
  assume a: "NewCPUSet text = Inr []"
  then have hp: "has_processor text"
    by (auto simp add: NewCPUSet_def split: if_splits)
  with a have "newCPUs (blocks_of [] (split_on (CHR 0x0A) text)) = Inr []"
    by (simp add: NewCPUSet_def)
  then have "blocks_of [] (split_on (CHR 0x0A) text) = []"
    using newCPUs_length [of "blocks_of [] (split_on (CHR 0x0A) text)" "[]"] by simp
  with has_processor_blocks [OF hp] show False by simp
qed

lemma host_newCPUSet_not_empty: "newCPUSet (host_pkg tags) input \<noteq> Inr []"
  using NewCPUSet_not_empty [of input]
  by (cases "NewCPUSet input") (simp_all add: host_pkg_def)

lemma getCPUSet_host_not_empty: "fst (getCPUSet (host_pkg tags) p w) \<noteq> Inr []"
proof (cases "ReadFile p w")
  case (Pair r w1)
  then show ?thesis
    by (cases r) (simp_all add: getCPUSet_def host_newCPUSet_not_empty)
qed

section \<open>The forward action\<close>



section \<open>The reverse action\<close>

text \<open>
  Claim C2.  \<open>doReverse\<close> does not look at the set it is given: for every set it opens
  the control file and, unless the open is refused, writes the literal \<open>on\<close> to it, and
  makes no other call; two sets give the same result on the same host.  When neither
  call is refused it succeeds and the file then begins with \<open>on\<close>.
\<close>

theorem doReverse_writes_on_for_every_set:
  "calls (snd (doReverse p cs w)) =
     calls w @ OpenFileCall p [O_WRONLY, O_CREATE] perm_0644 #
       (if fault_now w = None then [WriteCall p ''on''] else []) \<and>
   doReverse p cs w = doReverse p cs' w \<and>
   (fault_now w = None \<and> faults w (Suc (length (calls w))) = None \<longrightarrow>
      fst (doReverse p cs w) = Inr () \<and>
      map_option contents (files (snd (doReverse p cs w)) p) =
        Some (''on'' @ drop (length ''on'') (old_contents w p)))"
  by (simp add: doReverse_calls doEnableDisable_calls)
     (simp add: doReverse_def doEnableDisable_ok)

theorem doReverse_writes_on_for_every_set_witness:
  "\<not> CPUSet_IsVulnerable mds_tags (parsed (MakeCPUString AMD2)) \<and>
   CPUSet_IsVulnerable mds_tags (parsed (MakeCPUString CascadeLake2)) \<and>
   doReverse smtPath (parsed (MakeCPUString AMD2))
       (test_host cpuInfo (MakeCPUString AMD2) smtPath ''on'') =
     doReverse smtPath (parsed (MakeCPUString CascadeLake2))
       (test_host cpuInfo (MakeCPUString AMD2) smtPath ''on'') \<and>
   calls (snd (doReverse smtPath (parsed (MakeCPUString AMD2))
       (test_host cpuInfo (MakeCPUString AMD2) smtPath ''on''))) =
     [OpenFileCall smtPath [O_WRONLY, O_CREATE] perm_0644, WriteCall smtPath ''on''] \<and>
   fst (doReverse smtPath (parsed (MakeCPUString AMD2))
       (test_host cpuInfo (MakeCPUString AMD2) smtPath ''on'')) = Inr () \<and>
   map_option contents (files (snd (doReverse smtPath (parsed (MakeCPUString AMD2))
       (test_host cpuInfo (MakeCPUString AMD2) smtPath ''on''))) smtPath) = Some ''on''"
proof -
  let ?w = "test_host cpuInfo (MakeCPUString AMD2) smtPath ''on''"
  have safe: "\<not> CPUSet_IsVulnerable mds_tags (parsed (MakeCPUString AMD2))" by code_simp
  have vuln: "CPUSet_IsVulnerable mds_tags (parsed (MakeCPUString CascadeLake2))" by code_simp
  have nofault: "fault_now ?w = None" "faults ?w (Suc (length (calls ?w))) = None"
    by (simp_all add: test_host_def fault_now_def)
  have old: "old_contents ?w smtPath = ''on''" "calls ?w = []"
    by (simp_all add: test_host_def old_contents_def)
  note t = doReverse_writes_on_for_every_set
         [of smtPath "parsed (MakeCPUString AMD2)" ?w "parsed (MakeCPUString CascadeLake2)"]
  have a: "calls (snd (doReverse smtPath (parsed (MakeCPUString AMD2)) ?w)) =
          [OpenFileCall smtPath [O_WRONLY, O_CREATE] perm_0644, WriteCall smtPath ''on'']"
    using conjunct1 [OF t] nofault old by simp
  have b: "doReverse smtPath (parsed (MakeCPUString AMD2)) ?w =
          doReverse smtPath (parsed (MakeCPUString CascadeLake2)) ?w"
    by (rule conjunct1 [OF conjunct2 [OF t]])
  have c: "fst (doReverse smtPath (parsed (MakeCPUString AMD2)) ?w) = Inr () \<and>
     map_option contents (files (snd (doReverse smtPath (parsed (MakeCPUString AMD2)) ?w))
          smtPath) = Some ''on''"
    using conjunct2 [OF conjunct2 [OF t]] nofault old by simp
  from safe vuln a b c show ?thesis by blast
qed

section \<open>What a write leaves in the control file\<close>

text \<open>
  The control file is opened for writing and created when missing, but not truncated,
  and the action is written from offset 0.  A control file that holds \<open>off\<close> holds
  \<open>onf\<close> after \<open>on\<close> has been written with success: not the action and nothing
  else.
\<close>

theorem doEnableDisable_leaves_old_tail_counterexample:
  "fst (doEnableDisable smtPath ''on''
          (test_host cpuInfo (MakeCPUString CascadeLake2) smtPath ''off'')) = Inr () \<and>
   map_option contents
     (files (snd (doEnableDisable smtPath ''on''
          (test_host cpuInfo (MakeCPUString CascadeLake2) smtPath ''off''))) smtPath) = Some ''onf'' \<and>
   map_option contents
     (files (snd (doEnableDisable smtPath ''on''
          (test_host cpuInfo (MakeCPUString CascadeLake2) smtPath ''off''))) smtPath) \<noteq> Some ''on''"
proof -
  let ?w = "test_host cpuInfo (MakeCPUString CascadeLake2) smtPath ''off''"
  have nofault: "fault_now ?w = None" "faults ?w (Suc (length (calls ?w))) = None"
    by (simp_all add: test_host_def fault_now_def)
  have old: "old_contents ?w smtPath = ''off''"
    by (simp add: test_host_def old_contents_def)
  show ?thesis by (simp add: doEnableDisable_ok [OF nofault] old)
qed

text \<open>
  Claim C4, amended.  A successful \<open>doEnableDisable\<close> is one open and one write of the
  action.  Afterwards the file holds the action followed by the bytes of its old
  contents beyond the length of the action; it holds the action and nothing else when
  the file was missing or its old contents were no longer than the action.
\<close>

theorem doEnableDisable_overwrites_from_offset_0:
  "fst (doEnableDisable p a w) = Inr () \<Longrightarrow>
   calls (snd (doEnableDisable p a w)) =
     calls w @ [OpenFileCall p [O_WRONLY, O_CREATE] perm_0644, WriteCall p a] \<and>
   map_option contents (files (snd (doEnableDisable p a w)) p) =
     Some (a @ drop (length a) (old_contents w p)) \<and>
   (length (old_contents w p) \<le> length a \<longrightarrow>
      map_option contents (files (snd (doEnableDisable p a w)) p) = Some a)"
  by (simp add: doEnableDisable_succeeds_iff doEnableDisable_ok)

theorem doEnableDisable_overwrites_from_offset_0_witness:
  "fst (doEnableDisable smtPath ''off''
          (test_host cpuInfo (MakeCPUString CascadeLake2) smtPath ''on'')) = Inr () \<and>
   length (old_contents (test_host cpuInfo (MakeCPUString CascadeLake2) smtPath ''on'') smtPath)
     \<le> length ''off'' \<and>
   calls (snd (doEnableDisable smtPath ''off''
          (test_host cpuInfo (MakeCPUString CascadeLake2) smtPath ''on''))) =
     [OpenFileCall smtPath [O_WRONLY, O_CREATE] perm_0644, WriteCall smtPath ''off''] \<and>
   map_option contents
     (files (snd (doEnableDisable smtPath ''off''
          (test_host cpuInfo (MakeCPUString CascadeLake2) smtPath ''on''))) smtPath) = Some ''off''"
proof -
  let ?w = "test_host cpuInfo (MakeCPUString CascadeLake2) smtPath ''on''"
  have nofault: "fault_now ?w = None" "faults ?w (Suc (length (calls ?w))) = None"
    by (simp_all add: test_host_def fault_now_def)
  have ok: "fst (doEnableDisable smtPath ''off'' ?w) = Inr ()"
    by (simp add: doEnableDisable_ok [OF nofault])
  have old: "old_contents ?w smtPath = ''on''" "calls ?w = []"
    by (simp_all add: test_host_def old_contents_def)
  from doEnableDisable_overwrites_from_offset_0 [OF ok] ok old
  show ?thesis by simp
qed

section \<open>The error of a refused open\<close>


section \<open>A control file that does not exist\<close>




section \<open>Dry-run mode\<close>



text \<open>
  Claim C8.  With the dry-run and the reverse flag both set, the action is the one that
  does nothing: it succeeds and leaves the host as it was, and the whole run leaves every
  file as it was and makes no call other than reads.
\<close>

theorem dryRun_takes_precedence_over_reverse:
  "dryRun m \<Longrightarrow> reverse m \<Longrightarrow>
   chosenAction pkg m smtFilePath cpuSet w = (Inr (), w) \<and>
   files (snd (doExecute pkg m cpuInfoPath smtFilePath w)) = files w \<and>
   filter (\<lambda>c. \<not> is_read c) (new_calls w (snd (doExecute pkg m cpuInfoPath smtFilePath w))) = []"
  by (auto simp add: chosenAction_cases dryRunAction_def doExecute_def new_calls_def
        Errorf_def Infof_def called_def
        dest!: getCPUSet_eq_world split: prod.splits sum.splits option.splits)

theorem dryRun_takes_precedence_over_reverse_witness:
  "dryRun both_flags \<and> reverse both_flags \<and>
   chosenAction (host_pkg mds_tags) both_flags smtPath (parsed (MakeCPUString CascadeLake2))
       (test_host cpuInfo (MakeCPUString CascadeLake2) smtPath ''off'') =
     (Inr (), test_host cpuInfo (MakeCPUString CascadeLake2) smtPath ''off'') \<and>
   map_option contents
     (files (snd (doExecute (host_pkg mds_tags) both_flags cpuInfo smtPath
        (test_host cpuInfo (MakeCPUString CascadeLake2) smtPath ''off''))) smtPath) = Some ''off'' \<and>
   filter (\<lambda>c. \<not> is_read c)
     (new_calls (test_host cpuInfo (MakeCPUString CascadeLake2) smtPath ''off'')
        (snd (doExecute (host_pkg mds_tags) both_flags cpuInfo smtPath
           (test_host cpuInfo (MakeCPUString CascadeLake2) smtPath ''off'')))) = []"
proof -
  have flags: "dryRun both_flags" "reverse both_flags" by (simp_all add: both_flags_def)
  have old: "map_option contents
      (files (test_host cpuInfo (MakeCPUString CascadeLake2) smtPath ''off'') smtPath) = Some ''off''"
    by (simp add: test_host_def)
  from dryRun_takes_precedence_over_reverse
         [where m = both_flags and pkg = "host_pkg mds_tags" and smtFilePath = smtPath
            and cpuSet = "parsed (MakeCPUString CascadeLake2)" and cpuInfoPath = cpuInfo
            and w = "test_host cpuInfo (MakeCPUString CascadeLake2) smtPath ''off''"]
       flags old
  show ?thesis by simp
qed

section \<open>A failed action\<close>

text \<open>
  Claim C9.  Once the set has been read before, an error of the action ends the run:
  the result is that of \<open>Errorf\<close> on the host the action left, so the status is the
  failure status, nothing is logged about an after state, the check after the action has
  no part in the result, and the only read of the whole run is the one before.  When the
  action succeeds, the second read is the last call of the run, after every call of the
  action, none of which is a read.
\<close>

theorem action_error_ends_doExecute:
  assumes "getCPUSet pkg cpuInfoPath w = (Inr beforeSet, w1)"
  shows
    "(chosenAction pkg m smtFilePath beforeSet
         (Infof (''CPUs before: '' @ toString pkg beforeSet) w1) = (Inl err, w2) \<longrightarrow>
        doExecute pkg m cpuInfoPath smtFilePath w = Errorf (''Action failed: '' @ err) w2 \<and>
        filter is_read (new_calls w (snd (doExecute pkg m cpuInfoPath smtFilePath w))) =
          [ReadFileCall cpuInfoPath]) \<and>
     (chosenAction pkg m smtFilePath beforeSet
         (Infof (''CPUs before: '' @ toString pkg beforeSet) w1) = (Inr (), w2) \<longrightarrow>
        new_calls w (snd (doExecute pkg m cpuInfoPath smtFilePath w)) =
          ReadFileCall cpuInfoPath # new_calls w1 w2 @ [ReadFileCall cpuInfoPath] \<and>
        filter is_read (new_calls w1 w2) = [])"
proof -
  let ?wi = "Infof (''CPUs before: '' @ toString pkg beforeSet) w1"
  have w1: "w1 = called (ReadFileCall cpuInfoPath) w"
    using assms by (rule getCPUSet_eq_world)
  have noread: "filter is_read (new_calls w1 (snd (chosenAction pkg m smtFilePath beforeSet ?wi))) = []"
    using chosenAction_no_read [of ?wi pkg m smtFilePath beforeSet]
    by (simp add: new_calls_def Infof_fields)
  obtain cs' where ext: "calls (snd (chosenAction pkg m smtFilePath beforeSet ?wi)) = calls w1 @ cs'"
    using chosenAction_extends [of pkg m smtFilePath beforeSet ?wi] by (auto simp add: Infof_fields)
  have cs': "new_calls w1 (snd (chosenAction pkg m smtFilePath beforeSet ?wi)) = cs'"
    using ext by (rule new_calls_append)
  have total: "calls (snd (chosenAction pkg m smtFilePath beforeSet ?wi)) =
      calls w @ ReadFileCall cpuInfoPath # cs'"
    using ext by (simp add: w1 called_fields)
  have noread': "filter is_read cs' = []"
    using noread cs' by simp
  show ?thesis
  proof (intro conjI impI)
    assume a: "chosenAction pkg m smtFilePath beforeSet ?wi = (Inl err, w2)"
    have w2: "calls w2 = calls w @ ReadFileCall cpuInfoPath # cs'"
      using total a by simp
    show run: "doExecute pkg m cpuInfoPath smtFilePath w = Errorf (''Action failed: '' @ err) w2"
      using a by (simp add: doExecute_after_before [OF assms])
    have "new_calls w (snd (doExecute pkg m cpuInfoPath smtFilePath w)) =
        ReadFileCall cpuInfoPath # cs'"
      by (rule new_calls_append) (simp add: run Errorf_fields w2)
    then show "filter is_read (new_calls w (snd (doExecute pkg m cpuInfoPath smtFilePath w))) =
          [ReadFileCall cpuInfoPath]"
      by (simp add: noread')
  next
    assume a: "chosenAction pkg m smtFilePath beforeSet ?wi = (Inr (), w2)"
    have w2: "calls w2 = calls w @ ReadFileCall cpuInfoPath # cs'"
      using total a by simp
    have n12: "new_calls w1 w2 = cs'"
      using cs' a by simp
    have "snd (doExecute pkg m cpuInfoPath smtFilePath w) =
        (case getCPUSet pkg cpuInfoPath w2 of
           (Inl e, w3) \<Rightarrow> snd (Errorf (''Get after CPUSet failed: '' @ e) w3)
         | (Inr afterSet, w3) \<Rightarrow>
            (case postMitigate pkg m afterSet of
               Some e \<Rightarrow> snd (Errorf (''Post Mitigate failed: '' @ e)
                      (Infof (''CPUs after: '' @ toString pkg afterSet) w3))
             | None \<Rightarrow> Infof (''CPUs after: '' @ toString pkg afterSet) w3))"
      using a
      by (simp add: doExecute_after_before [OF assms] split: prod.splits sum.splits option.splits)
    then have "calls (snd (doExecute pkg m cpuInfoPath smtFilePath w)) =
        calls w2 @ [ReadFileCall cpuInfoPath]"
      by (auto simp add: Errorf_fields Infof_fields called_fields
            dest!: getCPUSet_eq_world split: prod.splits sum.splits option.splits)
    then have "calls (snd (doExecute pkg m cpuInfoPath smtFilePath w)) =
        calls w @ (ReadFileCall cpuInfoPath # cs' @ [ReadFileCall cpuInfoPath])"
      by (simp add: w2)
    then have "new_calls w (snd (doExecute pkg m cpuInfoPath smtFilePath w)) =
        ReadFileCall cpuInfoPath # cs' @ [ReadFileCall cpuInfoPath]"
      by (rule new_calls_append)
    then show "new_calls w (snd (doExecute pkg m cpuInfoPath smtFilePath w)) =
          ReadFileCall cpuInfoPath # new_calls w1 w2 @ [ReadFileCall cpuInfoPath]"
      by (simp add: n12)
    show "filter is_read (new_calls w1 w2) = []"
      by (simp add: n12 noread')
  qed
qed

theorem action_error_ends_doExecute_witness:
  "fst (doExecute (host_pkg mds_tags) plain_run cpuInfo smtPath
          (refusing 1 ''permission denied''
             (test_host cpuInfo (MakeCPUString CascadeLake2) smtPath ''on''))) = ExitFailure \<and>
   filter is_read
     (new_calls
        (refusing 1 ''permission denied''
           (test_host cpuInfo (MakeCPUString CascadeLake2) smtPath ''on''))
        (snd (doExecute (host_pkg mds_tags) plain_run cpuInfo smtPath
           (refusing 1 ''permission denied''
              (test_host cpuInfo (MakeCPUString CascadeLake2) smtPath ''on''))))) =
     [ReadFileCall cpuInfo] \<and>
   new_calls (test_host cpuInfo (MakeCPUString CascadeLake2) smtPath ''on'')
     (snd (doExecute (host_pkg mds_tags) plain_run cpuInfo smtPath
        (test_host cpuInfo (MakeCPUString CascadeLake2) smtPath ''on''))) =
     [ReadFileCall cpuInfo, OpenFileCall smtPath [O_WRONLY, O_CREATE] perm_0644,
      WriteCall smtPath ''off'', ReadFileCall cpuInfo]"
proof -
  let ?pkg = "host_pkg mds_tags"
  let ?bs = "parsed (MakeCPUString CascadeLake2)"
  let ?msg = "''CPUs before: '' @ toString ?pkg ?bs"
  let ?v = "test_host cpuInfo (MakeCPUString CascadeLake2) smtPath ''on''"
  let ?r = "refusing 1 ''permission denied'' ?v"
  let ?r1 = "called (ReadFileCall cpuInfo) ?r"
  let ?v1 = "called (ReadFileCall cpuInfo) ?v"
  have chosen: "chosenAction ?pkg plain_run = doMitigate (CPUSet_IsVulnerable mds_tags)"
    by (simp add: chosenAction_cases plain_run_def host_pkg_fields)
  have rb: "getCPUSet ?pkg cpuInfo ?r = (Inr ?bs, ?r1)"
    using getCPUSet_ok [of ?r cpuInfo "\<lparr>contents = MakeCPUString CascadeLake2, perm = 384\<rparr>" ?pkg]
    by (simp add: fault_now_def refusing_def test_host_def cpuInfo_neq_smtPath
          host_parses_CascadeLake2)
  have rf: "fault_now (Infof ?msg ?r1) = Some ''permission denied''"
    by (simp add: fault_now_def Infof_fields called_fields refusing_def test_host_def)
  have ra: "chosenAction ?pkg plain_run smtPath ?bs (Infof ?msg ?r1) =
      (Inl (''disable: '' @ ''failed to open file '' @ smtPath @ '': '' @ ''permission denied''),
       called (OpenFileCall smtPath [O_WRONLY, O_CREATE] perm_0644) (Infof ?msg ?r1))"
    using doEnableDisable_refused_open [OF rf, of smtPath "''off''"]
    by (simp add: chosen doMitigate_def vulnerable_CascadeLake2)
  note tr = action_error_ends_doExecute [OF rb, of plain_run smtPath
      "''disable: '' @ ''failed to open file '' @ smtPath @ '': '' @ ''permission denied''"
      "called (OpenFileCall smtPath [O_WRONLY, O_CREATE] perm_0644) (Infof ?msg ?r1)"]
  note r = mp [OF conjunct1 [OF tr] ra]
  have a: "fst (doExecute ?pkg plain_run cpuInfo smtPath ?r) = ExitFailure"
    by (simp only: conjunct1 [OF r] Errorf_fields)
  have b: "filter is_read (new_calls ?r (snd (doExecute ?pkg plain_run cpuInfo smtPath ?r))) =
      [ReadFileCall cpuInfo]"
    by (rule conjunct2 [OF r])
  have vb: "getCPUSet ?pkg cpuInfo ?v = (Inr ?bs, ?v1)"
    by (simp add: getCPUSet_test_host [OF cpuInfo_neq_smtPath] host_parses_CascadeLake2)
  have vf: "fault_now (Infof ?msg ?v1) = None"
      "faults (Infof ?msg ?v1) (Suc (length (calls (Infof ?msg ?v1)))) = None"
    by (simp_all add: fault_now_def Infof_fields called_fields test_host_def)
  have vok: "fst (chosenAction ?pkg plain_run smtPath ?bs (Infof ?msg ?v1)) = Inr ()"
    using doEnableDisable_ok [OF vf, of smtPath "''off''"]
    by (simp add: chosen doMitigate_def vulnerable_CascadeLake2)
  have vcalls: "new_calls ?v1 (snd (chosenAction ?pkg plain_run smtPath ?bs (Infof ?msg ?v1))) =
      [OpenFileCall smtPath [O_WRONLY, O_CREATE] perm_0644, WriteCall smtPath ''off'']"
    using vf(1)
    by (intro new_calls_append)
       (simp add: chosen doMitigate_calls vulnerable_CascadeLake2 doEnableDisable_calls
          Infof_fields)
  note tv = action_error_ends_doExecute [OF vb, of plain_run smtPath _
      "snd (chosenAction ?pkg plain_run smtPath ?bs (Infof ?msg ?v1))"]
  note v = mp [OF conjunct2 [OF tv] fst_eq_pair [OF vok]]
  have c: "new_calls ?v (snd (doExecute ?pkg plain_run cpuInfo smtPath ?v)) =
      [ReadFileCall cpuInfo, OpenFileCall smtPath [O_WRONLY, O_CREATE] perm_0644,
       WriteCall smtPath ''off'', ReadFileCall cpuInfo]"
    unfolding conjunct1 [OF v] vcalls by simp
  from a b c show ?thesis by blast
qed

section \<open>The arguments of the command\<close>

text \<open>
  On arm64 the command fails before it looks at its arguments: with one positional
  argument the status is the failure status, not the usage error, and without arguments
  it does not go on to the operation.
\<close>

theorem Execute_on_ARM_counterexample:
  "fst (Execute (host_pkg mds_tags) plain_run ''arm64'' 1
          (test_host cpuInfo (MakeCPUString CascadeLake2) smtPath ''on'')) = ExitFailure \<and>
   fst (Execute (host_pkg mds_tags) plain_run ''arm64'' 1
          (test_host cpuInfo (MakeCPUString CascadeLake2) smtPath ''on'')) \<noteq> ExitUsageError \<and>
   fst (Execute (host_pkg mds_tags) plain_run ''arm64'' 0
          (test_host cpuInfo (MakeCPUString CascadeLake2) smtPath ''on'')) = ExitFailure \<and>
   calls (snd (Execute (host_pkg mds_tags) plain_run ''arm64'' 0
          (test_host cpuInfo (MakeCPUString CascadeLake2) smtPath ''on''))) = []"
  by (simp add: Execute_def Warningf_def test_host_def)

text \<open>
  Claim C7, amended.  On arm64 and arm the command logs a warning and returns the failure
  status, whatever its arguments, without any file I/O.  On every other architecture,
  with one or more positional arguments it returns the usage error, a status of its own,
  without any file I/O, and without positional arguments it is \<open>doExecute\<close> on
  \<open>/proc/cpuinfo\<close> and the control file of the kernel.
\<close>

theorem Execute_usage_error_unless_ARM:
  "(GOARCH = ''arm64'' \<or> GOARCH = ''arm'' \<longrightarrow>
      fst (Execute pkg m GOARCH NArg w) = ExitFailure \<and>
      calls (snd (Execute pkg m GOARCH NArg w)) = calls w \<and>
      files (snd (Execute pkg m GOARCH NArg w)) = files w) \<and>
   (GOARCH \<noteq> ''arm64'' \<and> GOARCH \<noteq> ''arm'' \<and> NArg \<noteq> 0 \<longrightarrow>
      fst (Execute pkg m GOARCH NArg w) = ExitUsageError \<and>
      ExitUsageError \<noteq> ExitSuccess \<and> ExitUsageError \<noteq> ExitFailure \<and>
      calls (snd (Execute pkg m GOARCH NArg w)) = calls w \<and>
      files (snd (Execute pkg m GOARCH NArg w)) = files w) \<and>
   (GOARCH \<noteq> ''arm64'' \<and> GOARCH \<noteq> ''arm'' \<and> NArg = 0 \<longrightarrow>
      Execute pkg m GOARCH NArg w = doExecute pkg m cpuInfo smtPath w)"
  by (simp add: Execute_def Warningf_def)

theorem Execute_usage_error_unless_ARM_witness:
  "fst (Execute (host_pkg mds_tags) plain_run ''arm'' 0 bare_host) = ExitFailure \<and>
   calls (snd (Execute (host_pkg mds_tags) plain_run ''arm'' 0 bare_host)) = [] \<and>
   fst (Execute (host_pkg mds_tags) plain_run ''amd64'' 2 bare_host) = ExitUsageError \<and>
   calls (snd (Execute (host_pkg mds_tags) plain_run ''amd64'' 2 bare_host)) = [] \<and>
   Execute (host_pkg mds_tags) plain_run ''amd64'' 0 bare_host =
     doExecute (host_pkg mds_tags) plain_run cpuInfo smtPath bare_host"
proof -
  have none: "calls bare_host = []" by (simp add: bare_host_def)
  from Execute_usage_error_unless_ARM [of "''arm''" "host_pkg mds_tags" plain_run 0 bare_host]
  have a: "fst (Execute (host_pkg mds_tags) plain_run ''arm'' 0 bare_host) = ExitFailure \<and>
     calls (snd (Execute (host_pkg mds_tags) plain_run ''arm'' 0 bare_host)) = []"
    by (simp add: none)
  from Execute_usage_error_unless_ARM [of "''amd64''" "host_pkg mds_tags" plain_run 2 bare_host]
  have b: "fst (Execute (host_pkg mds_tags) plain_run ''amd64'' 2 bare_host) = ExitUsageError \<and>
     calls (snd (Execute (host_pkg mds_tags) plain_run ''amd64'' 2 bare_host)) = []"
    by (simp add: none)
  from Execute_usage_error_unless_ARM [of "''amd64''" "host_pkg mds_tags" plain_run 0 bare_host]
  have c: "Execute (host_pkg mds_tags) plain_run ''amd64'' 0 bare_host =
     doExecute (host_pkg mds_tags) plain_run cpuInfo smtPath bare_host"
    by simp
  from a b c show ?thesis by blast
qed

section \<open>Input without processors\<close>

text \<open>
  Claim C6.  Input in which no line gives a processor number, the empty input among
  them, is rejected by \<open>NewCPUSet\<close> with the "no cpus found" condition, which names the
  input; the command sees the text \<open>no cpus found for:\<close> followed by the quoted input.
  No input makes \<open>NewCPUSet\<close>, or \<open>getCPUSet\<close> on any host, return a set without
  processors.
\<close>

theorem NewCPUSet_no_cpus_found:
  "(\<not> has_processor input \<longrightarrow>
      NewCPUSet input = Inl (NoCPUsFound input) \<and>
      newCPUSet (host_pkg tags) input = Inl (''no cpus found for: '' @ quoted input)) \<and>
   NewCPUSet input \<noteq> Inr [] \<and>
   fst (getCPUSet (host_pkg tags) p w) \<noteq> Inr []"
  by (simp add: NewCPUSet_not_empty getCPUSet_host_not_empty)
     (simp add: NewCPUSet_def host_pkg_def)

theorem NewCPUSet_no_cpus_found_witness:
  "\<not> has_processor [] \<and> \<not> has_processor ''somethingNotCPU'' \<and>
   NewCPUSet [] = Inl (NoCPUsFound []) \<and>
   NewCPUSet ''somethingNotCPU'' = Inl (NoCPUsFound ''somethingNotCPU'') \<and>
   newCPUSet (host_pkg mds_tags) [] = Inl (''no cpus found for: '' @ [CHR 0x22, CHR 0x22]) \<and>
   fst (getCPUSet (host_pkg mds_tags) cpuInfo (test_host cpuInfo [] smtPath ''on'')) \<noteq> Inr []"
proof -
  have e: "\<not> has_processor []" by code_simp
  have s: "\<not> has_processor ''somethingNotCPU''" by code_simp
  have q: "quoted [] = [CHR 0x22, CHR 0x22]" by (simp add: quoted_def)
  from NewCPUSet_no_cpus_found [of "[]" mds_tags cpuInfo "test_host cpuInfo [] smtPath ''on''"]
       NewCPUSet_no_cpus_found [of "''somethingNotCPU''" mds_tags cpuInfo
          "test_host cpuInfo [] smtPath ''on''"]
       e s q
  show ?thesis by simp
qed

end
